(* ===== verification/Prelude.thy ===== *)
theory Prelude
  imports Main
begin

text \<open>
  Shared vocabulary of the development: the named rule collections the component
  theories fill, the type of property keys, and generic lemmas on association lists
  and maps that several components use.
\<close>

named_theorems obj_simps "evaluation rules of the JavaScript object model"
named_theorems slot_simps "rules for the slots of the editor dictionary"

text \<open>
  Parameter ids are JavaScript numbers used as property keys. The development models
  them as mathematical integers, i.e.\ safe integers whose decimal string is the
  property key; the map \<open>String \<circ> id\<close> is then injective, so key equality is integer
  equality.
\<close>

type_synonym key = int

text \<open>Keys of an association list and their update.\<close>

abbreviation keys_of :: "('k \<times> 'v) list \<Rightarrow> 'k list" where
  "keys_of ps \<equiv> map fst ps"

lemma dom_map_of_rev [simp]: "dom (map_of (rev ps)) = set (keys_of ps)"
  by (simp add: dom_map_of_conv_image_fst)

lemma strict_sorted_list_of_set:
  "sorted_wrt (<) xs \<Longrightarrow> sorted_list_of_set (set xs) = xs"
  by (simp add: sorted_list_of_set_sort_remdups strict_sorted_iff distinct_remdups_id
      sorted_sort_id)

lemma set_map_filter [simp]:
  "set (List.map_filter f xs) = {y. \<exists>x \<in> set xs. f x = Some y}"
  by (induction xs) (auto split: option.splits)

text \<open>First-occurrence deduplication, \<open>rev (remdups (rev xs))\<close>: a later copy of
  an element already present is dropped.\<close>

lemma remdups_append_mem:
  "x \<in> set ys \<Longrightarrow> remdups (xs @ x # ys) = remdups (xs @ ys)"
  by (induction xs) auto

lemma dedup_first_snoc:
  "rev (remdups (rev (xs @ [x]))) =
     (if x \<in> set xs then rev (remdups (rev xs)) else rev (remdups (rev xs)) @ [x])"
  by simp

end
