(* ===== verification/JsObject.thy ===== *)
theory JsObject
  imports Prelude
begin

text \<open>
  The plain JavaScript object that \<open>ParamEditor\<close> (src/src/App.tsx) uses as its
  dictionary \<open>Record<number, ...>\<close>. What the component relies on is ECMAScript's
  ordinary-object semantics for numeric keys:
  \<^item> \<open>dict[k] = v\<close> (internal Set) adds the property or overwrites it in place;
  \<^item> \<open>dict[k]\<close> (internal Get) is the value or \<open>undefined\<close>;
  \<^item> own property keys are enumerated (OrdinaryOwnPropertyKeys) array indices first, in
    ascending numeric order, then the other keys in insertion order; \<open>Object.values\<close>
    and the spread \<open>{...o}\<close> (CopyDataProperties) both follow that order.
  An array index is an integer \<open>k\<close> with \<open>0 \<le> k < 2^32 - 1\<close>; a negative id or a larger
  one is an ordinary string key. The object is therefore kept as two association lists:
  the index keys, sorted, and the other keys in insertion order. Under the invariant
  \<open>obj_wf\<close> this representation is canonical, so HOL equality of objects is
  equality of their observable property lists.
\<close>

definition array_index_bound :: int where
  "array_index_bound = 2 ^ 32 - 1"

definition is_array_index :: "key \<Rightarrow> bool" where
  "is_array_index k \<longleftrightarrow> 0 \<le> k \<and> k < array_index_bound"

record 'v jsobj =
  index_props :: "(key \<times> 'v) list"
  named_props :: "(key \<times> 'v) list"

definition obj_empty :: "'v jsobj" where
  "obj_empty = \<lparr>index_props = [], named_props = []\<rparr>"

text \<open>internal Set on an index key: insert in ascending position or overwrite.\<close>

fun index_upd :: "key \<Rightarrow> 'v \<Rightarrow> (key \<times> 'v) list \<Rightarrow> (key \<times> 'v) list" where
  "index_upd k v [] = [(k, v)]"
| "index_upd k v ((a, b) # ps) =
     (if k < a then (k, v) # (a, b) # ps
      else if k = a then (k, v) # ps
      else (a, b) # index_upd k v ps)"

text \<open>internal Set on a string key: overwrite in place, or append a new property.\<close>

fun named_upd :: "key \<Rightarrow> 'v \<Rightarrow> (key \<times> 'v) list \<Rightarrow> (key \<times> 'v) list" where
  "named_upd k v [] = [(k, v)]"
| "named_upd k v ((a, b) # ps) =
     (if k = a then (k, v) # ps else (a, b) # named_upd k v ps)"

definition obj_get :: "'v jsobj \<Rightarrow> key \<Rightarrow> 'v option" where
  "obj_get ob k =
     map_of (if is_array_index k then index_props ob else named_props ob) k"

definition obj_set :: "'v jsobj \<Rightarrow> key \<Rightarrow> 'v \<Rightarrow> 'v jsobj" where
  "obj_set ob k v =
     (if is_array_index k then ob\<lparr>index_props := index_upd k v (index_props ob)\<rparr>
      else ob\<lparr>named_props := named_upd k v (named_props ob)\<rparr>)"

definition obj_entries :: "'v jsobj \<Rightarrow> (key \<times> 'v) list" where
  "obj_entries ob = index_props ob @ named_props ob"

definition obj_keys :: "'v jsobj \<Rightarrow> key list" where
  "obj_keys ob = keys_of (obj_entries ob)"

definition obj_values :: "'v jsobj \<Rightarrow> 'v list" where
  "obj_values ob = map snd (obj_entries ob)"

text \<open>\<open>{...ob}\<close>: a fresh object receiving each own property of \<open>ob\<close> in key order.\<close>

definition obj_spread :: "'v jsobj \<Rightarrow> 'v jsobj" where
  "obj_spread ob = fold (\<lambda>(k, v) acc. obj_set acc k v) (obj_entries ob) obj_empty"

definition obj_wf :: "'v jsobj \<Rightarrow> bool" where
  "obj_wf ob \<longleftrightarrow>
     sorted_wrt (<) (keys_of (index_props ob)) \<and>
     list_all is_array_index (keys_of (index_props ob)) \<and>
     distinct (keys_of (named_props ob)) \<and>
     list_all (\<lambda>k. \<not> is_array_index k) (keys_of (named_props ob))"

subsection \<open>The two association-list updates\<close>

lemma map_of_index_upd [simp]: "map_of (index_upd k v ps) = (map_of ps)(k \<mapsto> v)"
  by (induction k v ps rule: index_upd.induct) (auto simp: fun_eq_iff)

lemma map_of_named_upd [simp]: "map_of (named_upd k v ps) = (map_of ps)(k \<mapsto> v)"
  by (induction k v ps rule: named_upd.induct) (auto simp: fun_eq_iff)

lemma set_keys_index_upd [simp]:
  "fst ` set (index_upd k v ps) = insert k (fst ` set ps)"
  by (induction k v ps rule: index_upd.induct) auto

lemma set_keys_named_upd [simp]:
  "fst ` set (named_upd k v ps) = insert k (fst ` set ps)"
  by (induction k v ps rule: named_upd.induct) auto

lemma in_set_index_upd:
  "x \<in> set (index_upd k v ps) \<Longrightarrow> x = (k, v) \<or> x \<in> set ps"
  by (induction k v ps rule: index_upd.induct) (auto split: if_splits)

lemma in_set_named_upd:
  "x \<in> set (named_upd k v ps) \<Longrightarrow> x = (k, v) \<or> x \<in> set ps"
  by (induction k v ps rule: named_upd.induct) (auto split: if_splits)

lemma sorted_index_upd:
  "sorted_wrt (<) (keys_of ps) \<Longrightarrow> sorted_wrt (<) (keys_of (index_upd k v ps))"
  by (induction k v ps rule: index_upd.induct) (fastforce dest: in_set_index_upd)+

lemma distinct_named_upd:
  "distinct (keys_of ps) \<Longrightarrow> distinct (keys_of (named_upd k v ps))"
  by (induction k v ps rule: named_upd.induct) (fastforce dest: in_set_named_upd)+

lemma index_upd_twice [simp]: "index_upd k w (index_upd k v ps) = index_upd k w ps"
  by (induction k v ps rule: index_upd.induct) auto

lemma named_upd_twice [simp]: "named_upd k w (named_upd k v ps) = named_upd k w ps"
  by (induction k v ps rule: named_upd.induct) auto

lemma list_all_keys_index_upd [simp]:
  "list_all P (keys_of (index_upd k v ps)) = (P k \<and> list_all P (keys_of ps))"
  by (induction k v ps rule: index_upd.induct) auto

lemma list_all_keys_named_upd [simp]:
  "list_all P (keys_of (named_upd k v ps)) = (P k \<and> list_all P (keys_of ps))"
  by (induction k v ps rule: named_upd.induct) auto

lemma index_upd_snoc:
  "list_all (\<lambda>a. a < k) (keys_of ps) \<Longrightarrow> index_upd k v ps = ps @ [(k, v)]"
  by (induction k v ps rule: index_upd.induct) auto

lemma named_upd_snoc:
  "k \<notin> set (keys_of ps) \<Longrightarrow> named_upd k v ps = ps @ [(k, v)]"
  by (induction k v ps rule: named_upd.induct) auto

lemma named_upd_present:
  "k \<in> set (keys_of ps) \<Longrightarrow> keys_of (named_upd k v ps) = keys_of ps"
  by (induction k v ps rule: named_upd.induct) auto

lemma index_upd_commute:
  "sorted_wrt (<) (keys_of ps) \<Longrightarrow> k \<noteq> j \<Longrightarrow>
   index_upd k v (index_upd j w ps) = index_upd j w (index_upd k v ps)"
  by (induction j w ps rule: index_upd.induct) auto

lemma named_upd_commute:
  "k \<noteq> j \<Longrightarrow> k \<in> set (keys_of ps) \<Longrightarrow> j \<in> set (keys_of ps) \<Longrightarrow>
   named_upd k v (named_upd j w ps) = named_upd j w (named_upd k v ps)"
  by (induction j w ps rule: named_upd.induct) auto

lemma index_upd_present:
  "sorted_wrt (<) (keys_of ps) \<Longrightarrow> k \<in> set (keys_of ps) \<Longrightarrow>
   keys_of (index_upd k v ps) = keys_of ps"
  by (induction k v ps rule: index_upd.induct) auto

subsection \<open>Objects: internal Get after internal Set, key sets, well-formedness\<close>

lemma obj_get_empty [simp, obj_simps]: "obj_get obj_empty k = None"
  by (simp add: obj_get_def obj_empty_def)

lemma obj_get_set [simp, obj_simps]:
  "obj_get (obj_set ob k v) j = (if j = k then Some v else obj_get ob j)"
  by (auto simp: obj_get_def obj_set_def)

lemma obj_get_set_fun [obj_simps]: "obj_get (obj_set ob k v) = (obj_get ob)(k \<mapsto> v)"
  by (simp add: fun_eq_iff)

lemma obj_wf_empty [simp, obj_simps]: "obj_wf obj_empty"
  by (simp add: obj_wf_def obj_empty_def)

lemma obj_wf_set [simp, obj_simps]: "obj_wf ob \<Longrightarrow> obj_wf (obj_set ob k v)"
  by (simp add: obj_wf_def obj_set_def sorted_index_upd distinct_named_upd)

lemma set_obj_keys_set [simp, obj_simps]:
  "set (obj_keys (obj_set ob k v)) = insert k (set (obj_keys ob))"
  by (auto simp: obj_keys_def obj_entries_def obj_set_def)

lemma obj_set_twice [simp, obj_simps]: "obj_set (obj_set ob k v) k w = obj_set ob k w"
  by (simp add: obj_set_def)

text \<open>A key is present exactly when internal Get finds it, on a well-formed object.\<close>

lemma obj_get_None_iff:
  "obj_wf ob \<Longrightarrow> (obj_get ob k = None) = (k \<notin> set (obj_keys ob))"
  by (auto simp: obj_wf_def obj_get_def obj_keys_def obj_entries_def list_all_iff
      map_of_eq_None_iff)

lemma obj_keys_of_get:
  "obj_wf ob \<Longrightarrow> obj_get ob k = Some v \<Longrightarrow> k \<in> set (obj_keys ob)"
  using obj_get_None_iff [of ob k] by auto

lemma obj_keys_distinct [obj_simps]: "obj_wf ob \<Longrightarrow> distinct (obj_keys ob)"
  by (fastforce simp: obj_wf_def obj_keys_def obj_entries_def list_all_iff strict_sorted_iff)

text \<open>On a well-formed object the own properties are exactly what internal Get returns.\<close>

lemma obj_entries_get:
  assumes "obj_wf ob"
  shows "((k, v) \<in> set (obj_entries ob)) = (obj_get ob k = Some v)"
proof -
  have d: "distinct (keys_of (index_props ob))" "distinct (keys_of (named_props ob))"
    using assms by (simp_all add: obj_wf_def strict_sorted_iff)
  have part: "(k, v) \<in> set (index_props ob) \<Longrightarrow> is_array_index k"
    "(k, v) \<in> set (named_props ob) \<Longrightarrow> \<not> is_array_index k"
    using assms by (auto simp: obj_wf_def list_all_iff)
  show ?thesis
    using d part by (auto simp: obj_entries_def obj_get_def dest: map_of_SomeD
        intro: map_of_is_SomeI split: if_splits)
qed

lemma obj_all_set:
  "list_all P (obj_entries ob) \<Longrightarrow> P (k, v) \<Longrightarrow> list_all P (obj_entries (obj_set ob k v))"
  by (fastforce simp: obj_entries_def obj_set_def list_all_iff
      dest: in_set_index_upd in_set_named_upd)

subsection \<open>Enumeration order\<close>

text \<open>
  Own keys come out index keys first, ascending, then the other keys; on an object
  whose keys are all array indices this is the sorted list of its keys.
\<close>

lemma obj_keys_index_only:
  assumes "obj_wf ob" and "list_all is_array_index (obj_keys ob)"
  shows "obj_keys ob = sorted_list_of_set (set (obj_keys ob))"
proof -
  have np: "named_props ob = []"
    using assms by (cases "named_props ob") (auto simp: obj_wf_def obj_keys_def obj_entries_def)
  then have "obj_keys ob = keys_of (index_props ob)"
    by (simp add: obj_keys_def obj_entries_def)
  moreover have "sorted_wrt (<) (keys_of (index_props ob))"
    using assms(1) by (simp add: obj_wf_def)
  ultimately show ?thesis
    by (metis strict_sorted_list_of_set)
qed

subsection \<open>Spread copies a well-formed object exactly\<close>

lemma fold_set_index:
  assumes "sorted_wrt (<) (keys_of (index_props acc @ ps))"
    and "list_all is_array_index (keys_of ps)"
  shows "fold (\<lambda>(k, v) acc. obj_set acc k v) ps acc =
         acc\<lparr>index_props := index_props acc @ ps\<rparr>"
  using assms
proof (induction ps arbitrary: acc)
  case Nil
  then show ?case by simp
next
  case (Cons p ps)
  obtain k v where p: "p = (k, v)" by (cases p)
  have "list_all (\<lambda>a. a < k) (keys_of (index_props acc))"
    using Cons.prems(1) p by (auto simp: sorted_wrt_append list_all_iff)
  then have "obj_set acc k v = acc\<lparr>index_props := index_props acc @ [(k, v)]\<rparr>"
    using Cons.prems(2) p by (simp add: obj_set_def index_upd_snoc)
  with Cons.IH [of "obj_set acc k v"] Cons.prems p show ?case by simp
qed

lemma fold_set_named:
  assumes "distinct (keys_of (named_props acc @ ps))"
    and "list_all (\<lambda>k. \<not> is_array_index k) (keys_of ps)"
  shows "fold (\<lambda>(k, v) acc. obj_set acc k v) ps acc =
         acc\<lparr>named_props := named_props acc @ ps\<rparr>"
  using assms
proof (induction ps arbitrary: acc)
  case Nil
  then show ?case by simp
next
  case (Cons p ps)
  obtain k v where p: "p = (k, v)" by (cases p)
  have "k \<notin> set (keys_of (named_props acc))"
    using Cons.prems(1) p by auto
  then have "obj_set acc k v = acc\<lparr>named_props := named_props acc @ [(k, v)]\<rparr>"
    using Cons.prems(2) p by (simp add: obj_set_def named_upd_snoc)
  with Cons.IH [of "obj_set acc k v"] Cons.prems p show ?case by simp
qed

lemma obj_spread_wf_id [obj_simps]: "obj_wf ob \<Longrightarrow> obj_spread ob = ob"
proof -
  assume wf: "obj_wf ob"
  let ?f = "\<lambda>(k, v) acc. obj_set acc k v"
  have "fold ?f (index_props ob) obj_empty = obj_empty\<lparr>index_props := index_props ob\<rparr>"
    using wf by (subst fold_set_index) (simp_all add: obj_wf_def obj_empty_def)
  moreover have "fold ?f (named_props ob) (obj_empty\<lparr>index_props := index_props ob\<rparr>) =
      obj_empty\<lparr>index_props := index_props ob, named_props := named_props ob\<rparr>"
    using wf by (subst fold_set_named) (simp_all add: obj_wf_def obj_empty_def)
  ultimately show "obj_spread ob = ob"
    by (simp add: obj_spread_def obj_entries_def obj_empty_def)
qed

lemma named_key_of_keys:
  "obj_wf ob \<Longrightarrow> k \<in> set (obj_keys ob) \<Longrightarrow> \<not> is_array_index k \<Longrightarrow>
   k \<in> set (keys_of (named_props ob))"
  by (auto simp: obj_wf_def obj_keys_def obj_entries_def list_all_iff)

lemma obj_set_commute:
  assumes "obj_wf ob" and "j \<noteq> k"
    and "j \<in> set (obj_keys ob)" and "k \<in> set (obj_keys ob)"
  shows "obj_set (obj_set ob j a) k b = obj_set (obj_set ob k b) j a"
proof -
  have s: "sorted_wrt (<) (keys_of (index_props ob))"
    using assms(1) by (simp add: obj_wf_def)
  show ?thesis
  proof (cases "is_array_index j \<and> is_array_index k")
    case True
    with s assms(2) show ?thesis by (simp add: obj_set_def index_upd_commute)
  next
    case False
    show ?thesis
    proof (cases "is_array_index j \<or> is_array_index k")
      case True
      with False show ?thesis by (auto simp: obj_set_def)
    next
      case nn: False
      with named_key_of_keys [OF assms(1)] assms(3,4) assms(2) show ?thesis
        by (simp add: obj_set_def named_upd_commute)
    qed
  qed
qed

text \<open>
  internal Set on a key the object already has keeps the key order; on a new string
  key it appends the key to the string part.
\<close>

lemma named_keys_set:
  "keys_of (named_props (obj_set ob k v)) =
     (if is_array_index k \<or> k \<in> set (keys_of (named_props ob)) then keys_of (named_props ob)
      else keys_of (named_props ob) @ [k])"
  by (simp add: obj_set_def named_upd_present named_upd_snoc)

lemma obj_keys_set_present:
  assumes "obj_wf ob" and "k \<in> set (obj_keys ob)"
  shows "obj_keys (obj_set ob k v) = obj_keys ob"
proof (cases "is_array_index k")
  case True
  with assms have "k \<in> set (keys_of (index_props ob))"
    by (auto simp: obj_wf_def obj_keys_def obj_entries_def list_all_iff)
  with assms(1) True show ?thesis
    by (simp add: obj_set_def obj_keys_def obj_entries_def obj_wf_def index_upd_present)
next
  case False
  with assms have "k \<in> set (keys_of (named_props ob))"
    by (rule named_key_of_keys)
  with False show ?thesis
    by (simp add: obj_set_def obj_keys_def obj_entries_def named_upd_present)
qed

lemma obj_keys_split:
  assumes "obj_wf ob"
  shows "obj_keys ob =
           sorted_list_of_set {k \<in> set (obj_keys ob). is_array_index k} @ keys_of (named_props ob)"
proof -
  have e: "{k \<in> set (obj_keys ob). is_array_index k} = set (keys_of (index_props ob))"
    using assms by (auto simp: obj_wf_def obj_keys_def obj_entries_def list_all_iff)
  have "sorted_wrt (<) (keys_of (index_props ob))"
    using assms by (simp add: obj_wf_def)
  then have "sorted_list_of_set (set (keys_of (index_props ob))) = keys_of (index_props ob)"
    by (rule strict_sorted_list_of_set)
  with e show ?thesis
    by (simp only: obj_keys_def obj_entries_def map_append)
qed

end
