(* ===== verification/ParamTypes.thy ===== *)
theory ParamTypes
  imports Prelude
begin

text \<open>
  The data of src/src/App.tsx: the interfaces \<open>Param\<close>, \<open>ParamValue<T>\<close>,
  \<open>Model<T>\<close> and \<open>Props<T>\<close> (lines 148--165) and the inline type of the entries of
  \<open>ParamEditor\<close>'s dictionary (lines 46--53). Values are the runtime JavaScript values
  that \<open>T extends number | string | unknown[]\<close> admits; \<open>undefined\<close> is \<open>None\<close>.
\<close>

datatype jsval = JStr string | JNum int | JArr "jsval list"

record param =
  param_id :: key
  param_name :: string
  param_type :: string

record paramvalue =
  paramId :: key
  pv_value :: jsval

record model =
  paramValues :: "paramvalue list"

record props =
  props_params :: "param list"
  props_model :: model

text \<open>
  An entry of the dictionary. \<open>{ id, name, value }\<close> when seeded from a declaration;
  \<open>{ ...undefined, value }\<close> = \<open>{ value }\<close> when written for a key no declaration
  seeded: then \<open>id\<close> and \<open>name\<close> are absent (\<open>None\<close>).
\<close>

record entry =
  entry_id :: "key option"
  entry_name :: "string option"
  entry_value :: "jsval option"

text \<open>\<open>typeof value === 'string'\<close> on a possibly undefined value.\<close>

fun typeof_string :: "jsval option \<Rightarrow> bool" where
  "typeof_string (Some (JStr s)) = True"
| "typeof_string _ = False"

text \<open>The value narrowed to \<open>string\<close> by that check.\<close>

fun string_of :: "jsval option \<Rightarrow> string option" where
  "string_of (Some (JStr s)) = Some s"
| "string_of _ = None"

abbreviation param_ids :: "param list \<Rightarrow> key list" where
  "param_ids ps \<equiv> map param_id ps"

abbreviation value_pairs :: "model \<Rightarrow> (key \<times> jsval) list" where
  "value_pairs m \<equiv> map (\<lambda>pv. (paramId pv, pv_value pv)) (paramValues m)"

abbreviation value_ids :: "model \<Rightarrow> key list" where
  "value_ids m \<equiv> map paramId (paramValues m)"

end
