(* ===== verification/Reconciler.thy ===== *)
theory Reconciler
  imports JsObject ParamTypes
begin

text \<open>
  The state of \<open>ParamEditor\<close> (src/src/App.tsx, lines 41--81): the dictionary
  \<open>valuesByParamIdDict\<close>, an object from parameter id to entry. It is seeded once by
  the \<open>useState\<close> initializer (two \<open>for ... of\<close> loops), read by \<open>getModel\<close>
  (\<open>Object.values\<close>) and replaced by \<open>onParamInputChange\<close> (spread of the previous
  dictionary with one entry rewritten). Below the code come the abstract editor state
  of the specification (a map from declared id to an optional value), the abstraction
  of the dictionary to it, and the refinement lemmas.
\<close>

type_synonym dict = "entry jsobj"

subsection \<open>The code\<close>

text \<open>Line 56: the empty slot written for every declared parameter.\<close>

definition empty_slot :: "param \<Rightarrow> entry" where
  "empty_slot p = \<lparr>entry_id = Some (param_id p), entry_name = Some (param_name p),
                   entry_value = None\<rparr>"

text \<open>\<open>{ ...e, value: v }\<close> where \<open>e\<close> may be \<open>undefined\<close> (lines 60--63, 76--79).\<close>

definition spread_value :: "entry option \<Rightarrow> jsval option \<Rightarrow> entry" where
  "spread_value e v =
     (case e of None \<Rightarrow> \<lparr>entry_id = None, entry_name = None, entry_value = v\<rparr>
      | Some x \<Rightarrow> x\<lparr>entry_value := v\<rparr>)"

text \<open>Lines 55--57: \<open>for (const param of params) dict[param.id] = {...}\<close>.\<close>

primrec seed_params :: "dict \<Rightarrow> param list \<Rightarrow> dict" where
  "seed_params d [] = d"
| "seed_params d (p # ps) = seed_params (obj_set d (param_id p) (empty_slot p)) ps"

text \<open>Lines 59--64: \<open>for (const paramValue of model.paramValues) ...\<close>.\<close>

primrec overlay_values :: "dict \<Rightarrow> paramvalue list \<Rightarrow> dict" where
  "overlay_values d [] = d"
| "overlay_values d (pv # pvs) =
     overlay_values
       (obj_set d (paramId pv) (spread_value (obj_get d (paramId pv)) (Some (pv_value pv))))
       pvs"

text \<open>Lines 45--67: the \<open>useState\<close> initializer.\<close>

definition init_dict :: "param list \<Rightarrow> model \<Rightarrow> dict" where
  "init_dict ps m = overlay_values (seed_params obj_empty ps) (paramValues m)"

text \<open>Lines 69--71.\<close>

definition get_model :: "dict \<Rightarrow> entry list" where
  "get_model d = obj_values d"

text \<open>
  Lines 73--81: the updater passed to \<open>setValuesByParamIdDict\<close>, applied to the
  previous dictionary: \<open>{...prev, [id]: {...prev[id], value}}\<close>.
\<close>

definition on_param_input_change :: "dict \<Rightarrow> jsval \<Rightarrow> key \<Rightarrow> dict" where
  "on_param_input_change prev v k =
     obj_set (obj_spread prev) k (spread_value (obj_get prev k) (Some v))"

subsection \<open>The specification's editor state\<close>

text \<open>
  The editor state of the specification (spec.md, sections 3 and 4.2): a map from
  each declared id to a slot that is empty (\<open>None\<close>) or holds a value. Initialisation
  drops values of undeclared ids; \<open>setValue\<close> of an id that is not a key fails
  with \<open>UnknownParameterError\<close>.
\<close>

type_synonym spec_state = "key \<rightharpoonup> jsval option"

datatype spec_error = UnknownParameterError

definition spec_initialize :: "param list \<Rightarrow> model \<Rightarrow> spec_state" where
  "spec_initialize ps m k =
     (if k \<in> set (param_ids ps) then Some (map_of (rev (value_pairs m)) k) else None)"

definition spec_set_value :: "spec_state \<Rightarrow> key \<Rightarrow> jsval \<Rightarrow> spec_error + spec_state" where
  "spec_set_value st k v =
     (if k \<in> dom st then Inr (st(k \<mapsto> Some v)) else Inl UnknownParameterError)"

text \<open>The abstraction: the slot of a key is the \<open>value\<close> field of its entry.\<close>

definition abs_dict :: "dict \<Rightarrow> spec_state" where
  "abs_dict d k = map_option entry_value (obj_get d k)"

text \<open>
  Entries that carry their own key as \<open>id\<close> (no orphan \<open>{ value }\<close> entries),
  and the looser invariant that an entry's \<open>id\<close> is its key when present.
\<close>

definition slots_named :: "dict \<Rightarrow> bool" where
  "slots_named d \<longleftrightarrow> list_all (\<lambda>(k, e). entry_id e = Some k) (obj_entries d)"

definition slot_ids_ok :: "dict \<Rightarrow> bool" where
  "slot_ids_ok d \<longleftrightarrow>
     list_all (\<lambda>(k, e). entry_id e = None \<or> entry_id e = Some k) (obj_entries d)"

text \<open>The populated slots of a \<open>getModel\<close> result, as (id, value) pairs.\<close>

definition populated :: "entry list \<Rightarrow> (key \<times> jsval) list" where
  "populated es =
     List.map_filter (\<lambda>e. case (entry_id e, entry_value e) of
                            (Some k, Some v) \<Rightarrow> Some (k, v) | _ \<Rightarrow> None) es"

text \<open>The slots the first loop writes, as a map: the last declaration of an id wins.\<close>

abbreviation seed_slots :: "param list \<Rightarrow> key \<rightharpoonup> entry" where
  "seed_slots ps \<equiv> map_of (rev (map (\<lambda>p. (param_id p, empty_slot p)) ps))"

subsection \<open>Spread of one entry\<close>

lemma spread_value_twice [simp, slot_simps]:
  "spread_value (Some (spread_value e v)) w = spread_value e w"
  by (simp add: spread_value_def split: option.splits)

lemma entry_value_spread [simp, slot_simps]: "entry_value (spread_value e v) = v"
  by (simp add: spread_value_def split: option.splits)

lemma entry_id_spread [simp, slot_simps]:
  "entry_id (spread_value e v) = (case e of None \<Rightarrow> None | Some x \<Rightarrow> entry_id x)"
  by (simp add: spread_value_def split: option.splits)

lemma entry_name_spread [simp, slot_simps]:
  "entry_name (spread_value e v) = (case e of None \<Rightarrow> None | Some x \<Rightarrow> entry_name x)"
  by (simp add: spread_value_def split: option.splits)

subsection \<open>Seeding and overlaying\<close>

lemma seed_params_wf [slot_simps]: "obj_wf d \<Longrightarrow> obj_wf (seed_params d ps)"
  by (induction ps arbitrary: d) simp_all

lemma overlay_values_wf [slot_simps]: "obj_wf d \<Longrightarrow> obj_wf (overlay_values d pvs)"
  by (induction pvs arbitrary: d) simp_all

lemma init_dict_wf [simp, slot_simps]: "obj_wf (init_dict ps m)"
  by (simp add: init_dict_def seed_params_wf overlay_values_wf)

lemma keys_seed_params [simp]:
  "set (obj_keys (seed_params d ps)) = set (obj_keys d) \<union> set (param_ids ps)"
  by (induction ps arbitrary: d) auto

lemma keys_overlay_values [simp]:
  "set (obj_keys (overlay_values d pvs)) = set (obj_keys d) \<union> set (map paramId pvs)"
  by (induction pvs arbitrary: d) auto

lemma obj_get_seed_params_fun: "obj_get (seed_params d ps) = obj_get d ++ seed_slots ps"
  by (induction ps arbitrary: d) (simp_all add: obj_get_set_fun map_add_assoc)

lemma obj_get_seed_params:
  "obj_get (seed_params d ps) k =
     (case seed_slots ps k of None \<Rightarrow> obj_get d k | Some e \<Rightarrow> Some e)"
  unfolding obj_get_seed_params_fun by (simp add: map_add_def)

lemma obj_get_overlay_values:
  "obj_get (overlay_values d pvs) k =
     (case map_of (rev (map (\<lambda>pv. (paramId pv, pv_value pv)) pvs)) k of
        None \<Rightarrow> obj_get d k
      | Some v \<Rightarrow> Some (spread_value (obj_get d k) (Some v)))"
  by (induction pvs arbitrary: d) (auto simp: map_add_def split: option.splits)

lemma obj_keys_empty [simp]: "obj_keys obj_empty = []"
  by (simp add: obj_keys_def obj_entries_def obj_empty_def)

lemma seed_slots_id:
  "seed_slots ps k = Some e \<Longrightarrow> entry_id e = Some k \<and> entry_value e = None"
  by (auto simp: empty_slot_def dest!: map_of_SomeD)

lemma seed_slots_None_iff: "(seed_slots ps k = None) = (k \<notin> set (param_ids ps))"
  by (auto simp: map_of_eq_None_iff image_iff)

lemma seed_slots_undeclared [simp]: "k \<notin> set (param_ids ps) \<Longrightarrow> seed_slots ps k = None"
  by (simp add: seed_slots_None_iff)

lemma obj_get_init_dict:
  "obj_get (init_dict ps m) k =
     (case map_of (rev (value_pairs m)) k of
        None \<Rightarrow> seed_slots ps k
      | Some v \<Rightarrow> Some (spread_value (seed_slots ps k) (Some v)))"
  by (simp add: init_dict_def obj_get_overlay_values obj_get_seed_params comp_def
      split: option.splits)

lemma init_dict_entry:
  assumes "obj_get (init_dict ps m) k = Some e"
  shows "entry_id e = (if k \<in> set (param_ids ps) then Some k else None)
         \<and> entry_value e = map_of (rev (value_pairs m)) k"
proof (cases "k \<in> set (param_ids ps)")
  case True
  then obtain e0 where s: "seed_slots ps k = Some e0"
    by (metis not_Some_eq seed_slots_None_iff)
  with seed_slots_id [OF s] True assms show ?thesis
    by (auto simp: obj_get_init_dict split: option.splits)
next
  case False
  with assms show ?thesis
    by (auto simp: obj_get_init_dict split: option.splits)
qed

lemma populated_get_model_iff:
  "obj_wf d \<Longrightarrow> (k, v) \<in> set (populated (get_model d)) \<longleftrightarrow>
     (\<exists>j e. obj_get d j = Some e \<and> entry_id e = Some k \<and> entry_value e = Some v)"
  by (force simp: populated_def get_model_def obj_values_def obj_entries_get [symmetric]
      split: option.splits)

lemma populated_init_dict:
  "set (populated (get_model (init_dict ps m))) =
     {(k, v). k \<in> set (param_ids ps) \<and> map_of (rev (value_pairs m)) k = Some v}"
proof (intro set_eqI iffI)
  fix x
  assume x: "x \<in> set (populated (get_model (init_dict ps m)))"
  obtain k v where kv: "x = (k, v)" by (cases x)
  from x kv obtain j e where "obj_get (init_dict ps m) j = Some e"
      "entry_id e = Some k" "entry_value e = Some v"
    by (auto simp: populated_get_model_iff)
  then show "x \<in> {(k, v). k \<in> set (param_ids ps) \<and> map_of (rev (value_pairs m)) k = Some v}"
    using kv by (auto dest!: init_dict_entry split: if_splits)
next
  fix x
  assume x: "x \<in> {(k, v). k \<in> set (param_ids ps) \<and> map_of (rev (value_pairs m)) k = Some v}"
  obtain k v where kv: "x = (k, v)" by (cases x)
  with x have "k \<notin> set (obj_keys (init_dict ps m)) \<Longrightarrow> False"
    by (simp add: init_dict_def)
  then obtain e where e: "obj_get (init_dict ps m) k = Some e"
    using obj_get_None_iff [OF init_dict_wf] by fastforce
  moreover from e x kv have "entry_id e = Some k \<and> entry_value e = Some v"
    by (auto dest: init_dict_entry)
  ultimately show "x \<in> set (populated (get_model (init_dict ps m)))"
    using kv by (auto simp: populated_get_model_iff)
qed

subsection \<open>Initialisation\<close>

text \<open>
  C1. After initialisation the dictionary's keys are the declared ids together with
  every id that has a value in the initial model, declared or not.
\<close>

theorem init_dict_keys:
  "set (obj_keys (init_dict ps m)) = set (param_ids ps) \<union> set (value_ids m)"
  by (simp add: init_dict_def)

text \<open>
  C2. The slot of every key after initialisation: the empty slot of the last
  declaration with that id, overwritten with the last initial value for that id when
  there is one; an id with a value and no declaration gets the bare \<open>{ value }\<close>.
\<close>

theorem init_dict_slot:
  "obj_get (init_dict ps m) k =
     (case map_of (rev (value_pairs m)) k of
        None \<Rightarrow> seed_slots ps k
      | Some v \<Rightarrow> Some (case seed_slots ps k of
                          None \<Rightarrow> \<lparr>entry_id = None, entry_name = None, entry_value = Some v\<rparr>
                        | Some e \<Rightarrow> e\<lparr>entry_value := Some v\<rparr>))"
  by (simp add: obj_get_init_dict spread_value_def split: option.splits)

text \<open>
  C3. Refinement of the specification's \<open>initialize\<close>: when every initial value
  names a declared parameter, the abstraction of the seeded dictionary is exactly the
  specification's initial editor state.
\<close>

theorem init_dict_refines:
  assumes "set (value_ids m) \<subseteq> set (param_ids ps)"
  shows "abs_dict (init_dict ps m) = spec_initialize ps m"
proof
  fix k
  show "abs_dict (init_dict ps m) k = spec_initialize ps m k"
  proof (cases "k \<in> set (param_ids ps)")
    case True
    then obtain e where "seed_slots ps k = Some e"
      by (metis not_Some_eq seed_slots_None_iff)
    with True show ?thesis
      by (auto simp: abs_dict_def spec_initialize_def obj_get_init_dict
          dest: seed_slots_id split: option.splits)
  next
    case False
    with assms have "map_of (rev (value_pairs m)) k = None"
      by (auto simp: map_of_eq_None_iff image_iff)
    with False show ?thesis
      by (simp add: abs_dict_def spec_initialize_def obj_get_init_dict)
  qed
qed

subsection \<open>Editing one slot\<close>

lemma on_change_wf [simp, slot_simps]:
  "obj_wf d \<Longrightarrow> obj_wf (on_param_input_change d v k)"
  by (simp add: on_param_input_change_def obj_spread_wf_id)

lemma obj_get_on_change [slot_simps]:
  "obj_wf d \<Longrightarrow> obj_get (on_param_input_change d v k) j =
     (if j = k then Some (spread_value (obj_get d k) (Some v)) else obj_get d j)"
  by (simp add: on_param_input_change_def obj_spread_wf_id)

lemma keys_on_change [simp, slot_simps]:
  "obj_wf d \<Longrightarrow> set (obj_keys (on_param_input_change d v k)) = insert k (set (obj_keys d))"
  by (simp add: on_param_input_change_def obj_spread_wf_id)

text \<open>
  C4. An edit leaves every other slot as it was: its entry is the same value, as the
  specification's identity-preservation asks.
\<close>

theorem on_change_frame:
  assumes "obj_wf d" and "j \<noteq> k"
  shows "obj_get (on_param_input_change d v k) j = obj_get d j"
  using assms by (simp add: obj_get_on_change)

text \<open>
  C5. An edit of a slot that exists keeps its \<open>id\<close> and \<open>name\<close> and replaces its value.
\<close>

theorem on_change_slot:
  assumes "obj_wf d" and "obj_get d k = Some e"
  shows "obj_get (on_param_input_change d v k) k = Some (e\<lparr>entry_value := Some v\<rparr>)"
  using assms by (simp add: obj_get_on_change spread_value_def)

text \<open>
  C6. Last write wins: two edits of the same slot leave the same dictionary, as one
  object, as the second edit alone.
\<close>

theorem on_change_last_write_wins:
  assumes "obj_wf d"
  shows "on_param_input_change (on_param_input_change d v1 k) v2 k =
         on_param_input_change d v2 k"
  using assms by (simp add: on_param_input_change_def obj_spread_wf_id)

text \<open>
  C7. Refinement of the specification's \<open>setValue\<close> on a key of the state: the edit
  of the dictionary abstracts to the specification's successful update.
\<close>

theorem on_change_refines:
  assumes "obj_wf d" and "k \<in> dom (abs_dict d)"
  shows "spec_set_value (abs_dict d) k v = Inr (abs_dict (on_param_input_change d v k))"
  using assms
  by (auto simp: spec_set_value_def abs_dict_def obj_get_on_change fun_eq_iff)

text \<open>
  C8. An edit of an id that is not a key does not fail, where the specification
  raises \<open>UnknownParameterError\<close>: the code adds an orphan entry \<open>{ value }\<close>.
\<close>

theorem on_change_unknown_id:
  assumes "obj_wf d" and "k \<notin> set (obj_keys d)"
  shows "spec_set_value (abs_dict d) k v = Inl UnknownParameterError
         \<and> set (obj_keys (on_param_input_change d v k)) = insert k (set (obj_keys d))
         \<and> obj_get (on_param_input_change d v k) k =
             Some \<lparr>entry_id = None, entry_name = None, entry_value = Some v\<rparr>"
proof -
  from assms have none: "obj_get d k = None"
    by (simp add: obj_get_None_iff)
  then have "k \<notin> dom (abs_dict d)"
    by (simp add: abs_dict_def domIff)
  with assms none show ?thesis
    by (simp add: spec_set_value_def obj_get_on_change spread_value_def)
qed

text \<open>
  C9. Edits of two different existing slots commute: the dictionary after both does
  not depend on their order.
\<close>

theorem on_change_commute:
  assumes "obj_wf d" and "j \<noteq> k"
    and "j \<in> set (obj_keys d)" and "k \<in> set (obj_keys d)"
  shows "on_param_input_change (on_param_input_change d v j) w k =
         on_param_input_change (on_param_input_change d w k) v j"
  using assms by (simp add: on_param_input_change_def obj_spread_wf_id obj_set_commute)

subsection \<open>Reading the model\<close>

lemma map_of_rev_distinct:
  "distinct (map fst ps) \<Longrightarrow> (map_of (rev ps) k = Some v) = ((k, v) \<in> set ps)"
  by (metis distinct_rev map_of_SomeD map_of_is_SomeI rev_map set_rev)

text \<open>
  C10. Round trip for pre-populated parameters: when the initial values name declared
  parameters, each at most once, the (id, value) pairs of the populated entries that
  \<open>getModel\<close> returns right after initialisation are exactly the initial values.
\<close>

theorem get_model_roundtrip:
  assumes "distinct (value_ids m)" and "set (value_ids m) \<subseteq> set (param_ids ps)"
  shows "set (populated (get_model (init_dict ps m))) = set (value_pairs m)"
proof -
  have "distinct (map fst (value_pairs m))"
    using assms(1) by (simp add: comp_def)
  then have "\<And>k v. (map_of (rev (value_pairs m)) k = Some v) = ((k, v) \<in> set (value_pairs m))"
    by (rule map_of_rev_distinct)
  with assms(2) show ?thesis
    by (auto simp: populated_init_dict)
qed

lemma init_dict_slots_named:
  "set (value_ids m) \<subseteq> set (param_ids ps) \<Longrightarrow>
   list_all (\<lambda>(k, e). entry_id e = Some k) (obj_entries (init_dict ps m))"
proof -
  assume sub: "set (value_ids m) \<subseteq> set (param_ids ps)"
  have "entry_id e = Some k" if "(k, e) \<in> set (obj_entries (init_dict ps m))" for k e
  proof -
    from that have get: "obj_get (init_dict ps m) k = Some e"
      by (simp add: obj_entries_get)
    then have "k \<in> set (obj_keys (init_dict ps m))"
      by (rule obj_keys_of_get [OF init_dict_wf])
    with sub have "k \<in> set (param_ids ps)"
      by (auto simp: init_dict_def)
    with init_dict_entry [OF get] show ?thesis by simp
  qed
  then show ?thesis by (auto simp: list_all_iff)
qed

lemma init_dict_model_ids:
  assumes "set (value_ids m) \<subseteq> set (param_ids ps)"
  shows "map entry_id (get_model (init_dict ps m)) = map Some (obj_keys (init_dict ps m))"
proof -
  let ?d = "init_dict ps m"
  have "map entry_id (get_model ?d) = map (\<lambda>(k, e). entry_id e) (obj_entries ?d)"
    by (simp add: get_model_def obj_values_def case_prod_beta comp_def)
  also have "\<dots> = map (\<lambda>(k, e). Some k) (obj_entries ?d)"
    using init_dict_slots_named [OF assms] by (auto simp: list_all_iff)
  also have "\<dots> = map Some (obj_keys ?d)"
    by (simp add: obj_keys_def case_prod_beta comp_def)
  finally show ?thesis .
qed

text \<open>
  The string keys of the seeded dictionary come in the order of their first
  declaration: re-declaring an id writes its slot in place.
\<close>

lemma named_keys_seed_params:
  "distinct (keys_of (named_props d)) \<Longrightarrow>
   keys_of (named_props (seed_params d ps)) =
     rev (remdups (rev (keys_of (named_props d) @
                        filter (\<lambda>k. \<not> is_array_index k) (param_ids ps))))"
proof (induction ps arbitrary: d)
  case Nil
  then show ?case by (simp add: distinct_remdups_id)
next
  case (Cons p ps)
  then show ?case
    by (simp add: named_keys_set remdups_append_mem)
qed

lemma keys_overlay_present:
  "obj_wf d \<Longrightarrow> set (map paramId pvs) \<subseteq> set (obj_keys d) \<Longrightarrow>
   obj_keys (overlay_values d pvs) = obj_keys d"
  by (induction pvs arbitrary: d) (simp_all add: obj_keys_set_present)


text \<open>
  C12. \<open>getModel\<close> order for every id: when the initial values name declared
  parameters, the ids of the result are first the declared ids that are array indices
  (\<open>0 .. 2^32 - 2\<close>), ascending, then the other declared ids (negative or from
  \<open>2^32 - 1\<close> on), in the order of their first declaration; duplicates are merged.
\<close>

theorem get_model_key_order:
  assumes "set (value_ids m) \<subseteq> set (param_ids ps)"
  shows "map entry_id (get_model (init_dict ps m)) =
           map Some (sort (remdups (filter is_array_index (param_ids ps))) @
                     rev (remdups (rev (filter (\<lambda>k. \<not> is_array_index k) (param_ids ps)))))"
proof -
  let ?s = "seed_params obj_empty ps"
  have wf: "obj_wf ?s" by (simp add: seed_params_wf)
  have ks: "set (obj_keys ?s) = set (param_ids ps)" by simp
  have "obj_keys (init_dict ps m) = obj_keys ?s"
    unfolding init_dict_def using assms wf ks by (simp add: keys_overlay_present)
  also have "\<dots> = sorted_list_of_set {k \<in> set (obj_keys ?s). is_array_index k} @
                   keys_of (named_props ?s)"
    by (rule obj_keys_split [OF wf])
  also have "\<dots> = sort (remdups (filter is_array_index (param_ids ps))) @
                   rev (remdups (rev (filter (\<lambda>k. \<not> is_array_index k) (param_ids ps))))"
  proof -
    have "{k \<in> set (obj_keys ?s). is_array_index k} = set (filter is_array_index (param_ids ps))"
      by (simp only: ks set_filter)
    then show ?thesis
      by (simp only: sorted_list_of_set_sort_remdups)
        (simp add: named_keys_seed_params obj_empty_def)
  qed
  finally show ?thesis by (simp add: init_dict_model_ids [OF assms])
qed

end
