(* ===== verification/ParamInput.thy ===== *)
theory ParamInput
  imports ParamTypes
begin

text \<open>
  The \<open>ParamInput\<close> control (src/src/App.tsx, lines 17--39): a stateless view of its
  props. It renders a label with \<open>name\<close> and a text input showing \<open>value\<close>, and on
  every change event calls \<open>onChange(e.target.value, id)\<close>. The props are the record
  \<open>control\<close>; the callback is not stored in it: what the control passes to it is
  \<open>param_input_change\<close>, and the caller decides what the callback does.
\<close>

record control =
  ctl_id :: key
  ctl_name :: string
  ctl_value :: "string option"

datatype vnode = Label string | TextInput "string option"

definition param_input_view :: "control \<Rightarrow> vnode list" where
  "param_input_view c = [Label (ctl_name c), TextInput (ctl_value c)]"

definition param_input_change :: "control \<Rightarrow> string \<Rightarrow> string \<times> key" where
  "param_input_change c txt = (txt, ctl_id c)"

end
