(* ===== verification/Dispatcher.thy ===== *)
theory Dispatcher
  imports Reconciler ParamInput
begin

text \<open>
  \<open>renderParams\<close> (src/src/App.tsx, lines 83--100): for each declared parameter, in
  declaration order, read its entry's \<open>value\<close> and render a \<open>ParamInput\<close> when the
  declared type is \<open>'string'\<close> and the value is a string; otherwise \<open>null\<close>. Reading
  \<open>.value\<close> of a missing entry throws a \<open>TypeError\<close>, which \<open>params.map\<close>
  propagates. The rendered control's \<open>onChange\<close> calls \<open>onParamInputChange\<close>
  with the new text and the parameter's id (line 93).
\<close>

datatype render_error = TypeError

definition render_param :: "dict \<Rightarrow> param \<Rightarrow> render_error + control option" where
  "render_param d p =
     (case obj_get d (param_id p) of
        None \<Rightarrow> Inl TypeError
      | Some e \<Rightarrow>
          (if param_type p = ''string'' \<and> typeof_string (entry_value e)
           then Inr (Some \<lparr>ctl_id = param_id p, ctl_name = param_name p,
                           ctl_value = string_of (entry_value e)\<rparr>)
           else Inr None))"

primrec render_params :: "dict \<Rightarrow> param list \<Rightarrow> render_error + control option list" where
  "render_params d [] = Inr []"
| "render_params d (p # ps) =
     (case render_param d p of
        Inl err \<Rightarrow> Inl err
      | Inr c \<Rightarrow> (case render_params d ps of Inl err \<Rightarrow> Inl err | Inr cs \<Rightarrow> Inr (c # cs)))"

text \<open>
  Line 93: the callback handed to the control of parameter \<open>p\<close> ignores the id the
  control reports and uses \<open>p\<close>'s own.
\<close>

definition dispatch_change :: "dict \<Rightarrow> param \<Rightarrow> string \<times> key \<Rightarrow> dict" where
  "dispatch_change d p args = on_param_input_change d (JStr (fst args)) (param_id p)"

subsection \<open>Rendering one parameter\<close>

lemma typeof_string_iff: "typeof_string v = (\<exists>s. v = Some (JStr s))"
  by (cases v rule: typeof_string.cases) auto

lemma render_param_Some:
  "render_param d p = Inr (Some c) \<longleftrightarrow>
     (\<exists>e s. obj_get d (param_id p) = Some e \<and> entry_value e = Some (JStr s) \<and>
            param_type p = ''string'' \<and>
            c = \<lparr>ctl_id = param_id p, ctl_name = param_name p, ctl_value = Some s\<rparr>)"
proof
  assume "render_param d p = Inr (Some c)"
  then show "\<exists>e s. obj_get d (param_id p) = Some e \<and> entry_value e = Some (JStr s) \<and>
            param_type p = ''string'' \<and>
            c = \<lparr>ctl_id = param_id p, ctl_name = param_name p, ctl_value = Some s\<rparr>"
    by (auto simp: render_param_def typeof_string_iff split: option.splits if_splits)
next
  assume "\<exists>e s. obj_get d (param_id p) = Some e \<and> entry_value e = Some (JStr s) \<and>
            param_type p = ''string'' \<and>
            c = \<lparr>ctl_id = param_id p, ctl_name = param_name p, ctl_value = Some s\<rparr>"
  then show "render_param d p = Inr (Some c)"
    by (auto simp: render_param_def)
qed

lemma render_param_not_string:
  "obj_get d (param_id p) = Some e \<Longrightarrow> \<not> typeof_string (entry_value e) \<Longrightarrow>
   render_param d p = Inr None"
  by (simp add: render_param_def)

lemma render_param_cong:
  assumes "obj_get d1 (param_id p) = obj_get d2 (param_id p)"
  shows "render_param d1 p = render_param d2 p"
  unfolding render_param_def assms ..

lemma render_params_cong:
  "(\<And>p. p \<in> set ps \<Longrightarrow> obj_get d1 (param_id p) = obj_get d2 (param_id p)) \<Longrightarrow>
   render_params d1 ps = render_params d2 ps"
proof (induction ps)
  case Nil
  then show ?case by simp
next
  case (Cons p ps)
  have "render_param d1 p = render_param d2 p"
    using Cons.prems by (intro render_param_cong) simp
  moreover have "render_params d1 ps = render_params d2 ps"
    using Cons.prems by (intro Cons.IH) simp
  ultimately show ?case by (simp cong: sum.case_cong)
qed


lemma render_params_Inr:
  "render_params d ps = Inr cs \<Longrightarrow>
   length cs = length ps \<and> (\<forall>i < length ps. render_param d (ps ! i) = Inr (cs ! i))"
proof (induction ps arbitrary: cs)
  case Nil
  then show ?case by simp
next
  case (Cons p ps)
  then obtain c cs' where "render_param d p = Inr c" "render_params d ps = Inr cs'"
      "cs = c # cs'"
    by (auto split: sum.splits)
  with Cons.IH [of cs'] show ?case
    by (auto simp: nth_Cons split: nat.splits)
qed


lemma render_params_append:
  "render_params d (ps @ qs) =
     (case render_params d ps of
        Inl err \<Rightarrow> Inl err
      | Inr cs \<Rightarrow> (case render_params d qs of Inl err \<Rightarrow> Inl err | Inr cs' \<Rightarrow> Inr (cs @ cs')))"
  by (induction ps) (auto split: sum.splits)

lemma render_params_ok:
  "(\<And>p. p \<in> set ps \<Longrightarrow> obj_get d (param_id p) \<noteq> None) \<Longrightarrow>
   \<exists>cs. render_params d ps = Inr cs"
proof (induction ps)
  case Nil
  then show ?case by simp
next
  case (Cons p ps)
  then obtain cs where cs: "render_params d ps = Inr cs" by auto
  from Cons.prems obtain e where "obj_get d (param_id p) = Some e"
    by auto
  then have "\<exists>c. render_param d p = Inr c"
    by (simp add: render_param_def)
  with cs show ?case by auto
qed

lemma seed_slots_snoc_other:
  "k \<noteq> param_id q \<Longrightarrow> seed_slots (ps @ [q]) k = seed_slots ps k"
  by simp

lemma init_dict_snoc_other:
  "k \<noteq> param_id q \<Longrightarrow> obj_get (init_dict (ps @ [q]) m) k = obj_get (init_dict ps m) k"
  by (simp add: obj_get_init_dict seed_slots_snoc_other del: map_of_append
      cong: option.case_cong)

subsection \<open>Properties of the dispatcher\<close>

text \<open>
  C13. A declared parameter with no initial value is not rendered at all: its slot
  holds \<open>undefined\<close>, which fails \<open>typeof value === 'string'\<close>. The specification
  requires a control for every declared parameter, whether or not it has a value.
\<close>

theorem render_unvalued_hidden:
  assumes "p \<in> set ps" and "param_id p \<notin> set (value_ids m)"
  shows "render_param (init_dict ps m) p = Inr None"
proof -
  from assms(1) obtain e where s: "seed_slots ps (param_id p) = Some e"
    by (metis image_eqI not_Some_eq seed_slots_None_iff set_map)
  from assms(2) have "map_of (rev (value_pairs m)) (param_id p) = None"
    by (auto simp: map_of_eq_None_iff image_iff)
  with s have "obj_get (init_dict ps m) (param_id p) = Some e"
    by (simp add: obj_get_init_dict)
  moreover from seed_slots_id [OF s] have "\<not> typeof_string (entry_value e)"
    by simp
  ultimately show ?thesis by (rule render_param_not_string)
qed

text \<open>
  C14. \<open>renderParams\<close> throws \<open>TypeError\<close> exactly when some declared parameter has
  no entry in the dictionary.
\<close>

theorem render_params_fails_iff:
  "(render_params d ps = Inl TypeError) = (\<exists>p \<in> set ps. obj_get d (param_id p) = None)"
proof (induction ps)
  case Nil
  then show ?case by simp
next
  case (Cons p ps)
  show ?case
  proof (cases "obj_get d (param_id p)")
    case None
    then show ?thesis by (simp add: render_param_def)
  next
    case (Some e)
    then have "\<exists>c. render_param d p = Inr c"
      by (simp add: render_param_def)
    then obtain c where "render_param d p = Inr c" ..
    with Some Cons.IH show ?thesis
      by (auto split: sum.splits elim: render_error.exhaust)
  qed
qed

text \<open>
  C15. A rendered control shows the slot's current value and nothing else: its id
  and label are the parameter's, the parameter is of type \<open>'string'\<close>, and its
  displayed text is the string held in the slot.
\<close>

theorem render_control_shows_slot:
  assumes "render_param d p = Inr (Some c)"
  shows "ctl_id c = param_id p \<and> ctl_name c = param_name p \<and> param_type p = ''string'' \<and>
         (\<exists>s. ctl_value c = Some s \<and> abs_dict d (param_id p) = Some (Some (JStr s)))"
  using assms by (auto simp: render_param_Some abs_dict_def)

text \<open>
  C16. Extension: declaring one more parameter, with a fresh id and a kind other than
  \<open>'string'\<close>, leaves the rendering of the existing parameters unchanged and renders
  nothing for the new one.
\<close>

theorem render_extension:
  assumes "param_id q \<notin> set (param_ids ps)" and "param_type q \<noteq> ''string''"
  shows "render_params (init_dict (ps @ [q]) m) (ps @ [q]) =
         map_sum id (\<lambda>cs. cs @ [None]) (render_params (init_dict ps m) ps)"
proof -
  have "render_params (init_dict (ps @ [q]) m) ps = render_params (init_dict ps m) ps"
    using assms(1) by (intro render_params_cong init_dict_snoc_other) (metis image_eqI set_map)
  moreover have "obj_get (init_dict (ps @ [q]) m) (param_id q) \<noteq> None"
    by (simp add: obj_get_init_dict split: option.splits)
  then have "render_param (init_dict (ps @ [q]) m) q = Inr None"
    using assms(2) by (auto simp: render_param_def)
  ultimately show ?thesis
    by (simp add: render_params_append split: sum.splits)
qed

end
