(* ===== verification/Session.thy ===== *)
theory Session
  imports Dispatcher
begin

text \<open>
  The \<open>ParamEditor\<close> component as a running session (src/src/App.tsx, lines
  41--114). Mounting runs the \<open>useState\<close> initializer once on the props; afterwards
  the props stay as mounted (a later change of \<open>params\<close> would not re-seed the state).
  Each render calls \<open>renderParams\<close>; the user can type into a rendered control,
  which runs \<open>onParamInputChange\<close> through the control's callback, or press the
  button, which logs \<open>getModel()\<close> to the console. A render that throws unmounts the
  component, so no event is possible from such a state. A session is the record of the
  props, the current dictionary and the console log; \<open>ui_step\<close> is one user event
  and \<open>reachable\<close> the states reached from mounting.
\<close>

record session =
  s_props :: props
  s_dict :: dict
  s_log :: "entry list list"

definition mount :: "props \<Rightarrow> session" where
  "mount pr = \<lparr>s_props = pr, s_dict = init_dict (props_params pr) (props_model pr), s_log = []\<rparr>"

text \<open>Typing \<open>txt\<close> into the \<open>i\<close>-th rendered control, or pressing "get model".\<close>

datatype ui_event = TypeInto nat string | ClickGetModel

fun ui_step :: "session \<Rightarrow> ui_event \<Rightarrow> session option" where
  "ui_step s (TypeInto i txt) =
     (case render_params (s_dict s) (props_params (s_props s)) of
        Inl _ \<Rightarrow> None
      | Inr cs \<Rightarrow>
          (if i < length cs then
             (case cs ! i of
                None \<Rightarrow> None
              | Some c \<Rightarrow> Some (s\<lparr>s_dict := dispatch_change (s_dict s)
                                   (props_params (s_props s) ! i) (param_input_change c txt)\<rparr>))
           else None))"
| "ui_step s ClickGetModel =
     (case render_params (s_dict s) (props_params (s_props s)) of
        Inl _ \<Rightarrow> None
      | Inr _ \<Rightarrow> Some (s\<lparr>s_log := s_log s @ [get_model (s_dict s)]\<rparr>))"

inductive reachable :: "props \<Rightarrow> session \<Rightarrow> bool" for pr where
  mounted: "reachable pr (mount pr)"
| step: "reachable pr s \<Longrightarrow> ui_step s e = Some s' \<Longrightarrow> reachable pr s'"

text \<open>
  The invariant of a session: the props are the mounted ones, the dictionary is a
  well-formed object whose keys are the declared ids and the initially valued ids,
  and an entry's \<open>id\<close>, when present, is its key.
\<close>

definition session_inv :: "props \<Rightarrow> session \<Rightarrow> bool" where
  "session_inv pr s \<longleftrightarrow>
     s_props s = pr \<and> obj_wf (s_dict s) \<and> slot_ids_ok (s_dict s) \<and>
     set (obj_keys (s_dict s)) =
       set (param_ids (props_params pr)) \<union> set (value_ids (props_model pr))"

subsection \<open>One step\<close>

lemma ui_step_edit:
  assumes "ui_step s (TypeInto i txt) = Some s'"
  shows "i < length (props_params (s_props s)) \<and>
         (\<exists>c. render_param (s_dict s) (props_params (s_props s) ! i) = Inr (Some c)) \<and>
         s' = s\<lparr>s_dict := on_param_input_change (s_dict s) (JStr txt)
                              (param_id (props_params (s_props s) ! i))\<rparr>"
proof -
  from assms obtain cs c where r: "render_params (s_dict s) (props_params (s_props s)) = Inr cs"
    and i: "i < length cs" and c: "cs ! i = Some c"
    and s': "s' = s\<lparr>s_dict := dispatch_change (s_dict s)
                      (props_params (s_props s) ! i) (param_input_change c txt)\<rparr>"
    by (auto split: sum.splits if_splits option.splits)
  from render_params_Inr [OF r] i c show ?thesis
    using s' by (auto simp: dispatch_change_def param_input_change_def)
qed

lemma ui_step_click:
  "ui_step s ClickGetModel = Some s' \<Longrightarrow> s' = s\<lparr>s_log := s_log s @ [get_model (s_dict s)]\<rparr>"
  by (auto split: sum.splits)

lemma ui_step_cases:
  assumes "ui_step s e = Some s'"
  obtains (typed) i str c where "e = TypeInto i str" "i < length (props_params (s_props s))"
      "render_param (s_dict s) (props_params (s_props s) ! i) = Inr (Some c)"
      "s' = s\<lparr>s_dict := on_param_input_change (s_dict s) (JStr str)
                          (param_id (props_params (s_props s) ! i))\<rparr>"
  | (clicked) "e = ClickGetModel" "s' = s\<lparr>s_log := s_log s @ [get_model (s_dict s)]\<rparr>"
proof (cases e)
  case (TypeInto i str)
  from ui_step_edit [OF assms [unfolded TypeInto] ] obtain c where
    "i < length (props_params (s_props s))"
    "render_param (s_dict s) (props_params (s_props s) ! i) = Inr (Some c)"
    "s' = s\<lparr>s_dict := on_param_input_change (s_dict s) (JStr str)
                          (param_id (props_params (s_props s) ! i))\<rparr>"
    by blast
  with TypeInto show ?thesis by (rule typed)
next
  case ClickGetModel
  from this ui_step_click [OF assms [unfolded ClickGetModel] ] show ?thesis by (rule clicked)
qed

subsection \<open>The invariant\<close>

lemma slot_ids_ok_init: "slot_ids_ok (init_dict ps m)"
  by (auto simp: slot_ids_ok_def list_all_iff obj_entries_get dest!: init_dict_entry
      split: if_splits)

lemma slot_ids_ok_on_change:
  assumes "obj_wf d" and "slot_ids_ok d" and "k \<in> set (obj_keys d)"
  shows "slot_ids_ok (on_param_input_change d v k)"
proof -
  from assms(1,3) obtain e where e: "obj_get d k = Some e"
    using obj_get_None_iff by fastforce
  with assms(1,2) have "entry_id e = None \<or> entry_id e = Some k"
    by (auto simp: slot_ids_ok_def list_all_iff obj_entries_get [symmetric])
  with assms(1,2) e show ?thesis
    by (auto simp: slot_ids_ok_def on_param_input_change_def obj_spread_wf_id
        intro!: obj_all_set)
qed

lemma render_param_key:
  "obj_wf d \<Longrightarrow> render_param d p = Inr (Some c) \<Longrightarrow> param_id p \<in> set (obj_keys d)"
  by (auto simp: render_param_Some intro: obj_keys_of_get)

lemma session_inv_mount: "session_inv pr (mount pr)"
proof -
  have "set (obj_keys (init_dict ps m)) = set (param_ids ps) \<union> set (value_ids m)" for ps m
    by (simp add: init_dict_def)
  then show ?thesis
    by (simp add: session_inv_def mount_def slot_ids_ok_init)
qed

lemma session_inv_step:
  assumes "session_inv pr s" and "ui_step s e = Some s'"
  shows "session_inv pr s'"
  using assms(2)
proof (cases rule: ui_step_cases)
  case (typed i str c)
  with assms(1) have "param_id (props_params (s_props s) ! i) \<in> set (obj_keys (s_dict s))"
    by (auto simp: session_inv_def intro: render_param_key)
  with assms(1) typed show ?thesis
    by (auto simp: session_inv_def intro: slot_ids_ok_on_change)
next
  case clicked
  with assms(1) show ?thesis by (simp add: session_inv_def)
qed

lemma reachable_session_inv: "reachable pr s \<Longrightarrow> session_inv pr s"
proof (induction rule: reachable.induct)
  case mounted
  show ?case by (rule session_inv_mount)
next
  case (step s e s')
  then show ?case by (blast intro: session_inv_step)
qed

lemma session_inv_render:
  assumes "session_inv pr s"
  shows "\<exists>cs. render_params (s_dict s) (props_params pr) = Inr cs"
proof -
  have "obj_get (s_dict s) (param_id p) \<noteq> None" if "p \<in> set (props_params pr)" for p
    using assms that by (auto simp: session_inv_def obj_get_None_iff)
  then show ?thesis by (rule render_params_ok)
qed

text \<open>
  Slots frozen for the whole session: a slot whose initial value is not a string
  (\<open>undefined\<close>, a number, an array) is never rendered, so no event reaches it.
\<close>

lemma reachable_frozen_slot:
  assumes "reachable pr s"
    and "obj_get (init_dict (props_params pr) (props_model pr)) k = Some e0"
    and "\<not> typeof_string (entry_value e0)"
  shows "obj_get (s_dict s) k = Some e0"
  using assms(1)
proof (induction rule: reachable.induct)
  case mounted
  show ?case using assms(2) by (simp add: mount_def)
next
  case (step s e s')
  have inv: "session_inv pr s" using step.hyps(1) by (rule reachable_session_inv)
  from step.hyps(2) show ?case
  proof (cases rule: ui_step_cases)
    case (typed i str c)
    let ?j = "param_id (props_params (s_props s) ! i)"
    from typed(3) obtain e' t where "obj_get (s_dict s) ?j = Some e'"
        "entry_value e' = Some (JStr t)"
      by (auto simp: render_param_Some)
    with step.IH assms(3) have "?j \<noteq> k" by auto
    with inv typed(4) step.IH show ?thesis
      by (simp add: session_inv_def obj_get_on_change)
  next
    case clicked
    with step.IH show ?thesis by simp
  qed
qed

lemma reachable_log:
  "reachable pr s \<Longrightarrow> l \<in> set (s_log s) \<Longrightarrow>
   \<exists>s0. reachable pr s0 \<and> l = get_model (s_dict s0)"
proof (induction arbitrary: l rule: reachable.induct)
  case mounted
  then show ?case by (simp add: mount_def)
next
  case (step s e s')
  from step.hyps(2) show ?case
  proof (cases rule: ui_step_cases)
    case typed
    with step show ?thesis by simp
  next
    case clicked
    with step show ?thesis by auto
  qed
qed

subsection \<open>Properties of the session\<close>

text \<open>
  C17. User events never add or remove keys: in every reachable state the
  dictionary's keys are the declared ids and the initially valued ids.
\<close>

theorem reachable_keys:
  assumes "reachable pr s"
  shows "set (obj_keys (s_dict s)) =
           set (param_ids (props_params pr)) \<union> set (value_ids (props_model pr))"
  using reachable_session_inv [OF assms] by (simp add: session_inv_def)

text \<open>
  C18. Rendering never throws in a reachable state: every declared parameter has an
  entry, and \<open>renderParams\<close> yields one element per declared parameter.
\<close>

theorem reachable_render_total:
  assumes "reachable pr s"
  shows "\<exists>cs. render_params (s_dict s) (props_params pr) = Inr cs \<and>
              length cs = length (props_params pr)"
proof -
  from session_inv_render [OF reachable_session_inv [OF assms] ] obtain cs
    where "render_params (s_dict s) (props_params pr) = Inr cs" ..
  with render_params_Inr show ?thesis by blast
qed

text \<open>
  C19. A declared parameter with no initial value stays empty and hidden for the
  whole session: in every reachable state its slot holds \<open>undefined\<close> and no
  control is rendered for it, so the user can never enter a value for it.
\<close>

theorem reachable_unvalued_frozen:
  assumes "reachable pr s" and "p \<in> set (props_params pr)"
    and "param_id p \<notin> set (value_ids (props_model pr))"
  shows "abs_dict (s_dict s) (param_id p) = Some None \<and> render_param (s_dict s) p = Inr None"
proof -
  let ?ps = "props_params pr" and ?m = "props_model pr"
  from assms(2) obtain e0 where s: "seed_slots ?ps (param_id p) = Some e0"
    by (metis image_eqI not_Some_eq seed_slots_None_iff set_map)
  from assms(3) have "map_of (rev (value_pairs ?m)) (param_id p) = None"
    by (auto simp: map_of_eq_None_iff image_iff)
  with s have init: "obj_get (init_dict ?ps ?m) (param_id p) = Some e0"
    by (simp add: obj_get_init_dict)
  have v: "entry_value e0 = None" using seed_slots_id [OF s] by simp
  then have "obj_get (s_dict s) (param_id p) = Some e0"
    using reachable_frozen_slot [OF assms(1) init] by simp
  with v show ?thesis
    by (simp add: abs_dict_def render_param_not_string)
qed

text \<open>
  C20. What typing into a control does: the event exists only for a rendered control,
  and its effect is \<open>onParamInputChange\<close> with the typed text and the id of the
  parameter at that position; the console log and the props are unchanged.
\<close>

theorem ui_edit_effect:
  assumes "ui_step s (TypeInto i str) = Some s'"
  shows "i < length (props_params (s_props s)) \<and>
         (\<exists>c. render_param (s_dict s) (props_params (s_props s) ! i) = Inr (Some c)) \<and>
         s_dict s' = on_param_input_change (s_dict s) (JStr str)
                       (param_id (props_params (s_props s) ! i)) \<and>
         s_log s' = s_log s \<and> s_props s' = s_props s"
  using ui_step_edit [OF assms] by simp

text \<open>
  C21. A rendered control stays editable: from a reachable state, typing any text
  into it succeeds, stores the text in the parameter's slot, and the control is
  rendered again showing that text.
\<close>

theorem reachable_editable:
  assumes "reachable pr s" and "i < length (props_params pr)"
    and "render_param (s_dict s) (props_params pr ! i) = Inr (Some c)"
  shows "\<exists>s'. ui_step s (TypeInto i str) = Some s' \<and>
              abs_dict (s_dict s') (param_id (props_params pr ! i)) = Some (Some (JStr str)) \<and>
              render_param (s_dict s') (props_params pr ! i) = Inr (Some (c\<lparr>ctl_value := Some str\<rparr>))"
proof -
  let ?ps = "props_params pr" and ?d = "s_dict s"
  have inv: "session_inv pr s" using assms(1) by (rule reachable_session_inv)
  then have props: "s_props s = pr" and wf: "obj_wf ?d" by (simp_all add: session_inv_def)
  from session_inv_render [OF inv] obtain cs where r: "render_params ?d ?ps = Inr cs" ..
  with render_params_Inr [OF r] assms(2,3) have ci: "i < length cs" "cs ! i = Some c" by auto
  let ?s' = "s\<lparr>s_dict := on_param_input_change ?d (JStr str) (param_id (?ps ! i))\<rparr>"
  have step: "ui_step s (TypeInto i str) = Some ?s'"
    using r ci props by (simp add: dispatch_change_def param_input_change_def)
  from assms(3) obtain e t where e: "obj_get ?d (param_id (?ps ! i)) = Some e"
      "entry_value e = Some (JStr t)" "param_type (?ps ! i) = ''string''"
      "c = \<lparr>ctl_id = param_id (?ps ! i), ctl_name = param_name (?ps ! i), ctl_value = Some t\<rparr>"
    by (auto simp: render_param_Some)
  then have "obj_get (s_dict ?s') (param_id (?ps ! i)) = Some (e\<lparr>entry_value := Some (JStr str)\<rparr>)"
    using wf by (simp add: obj_get_on_change spread_value_def)
  with e have "abs_dict (s_dict ?s') (param_id (?ps ! i)) = Some (Some (JStr str)) \<and>
      render_param (s_dict ?s') (?ps ! i) = Inr (Some (c\<lparr>ctl_value := Some str\<rparr>))"
    by (simp add: abs_dict_def render_param_def)
  with step show ?thesis by blast
qed

text \<open>
  C22. Every model printed to the console lists exactly one entry per key of the
  dictionary: one per declared or initially valued id.
\<close>

theorem reachable_log_shape:
  assumes "reachable pr s" and "l \<in> set (s_log s)"
  shows "length l = card (set (param_ids (props_params pr)) \<union> set (value_ids (props_model pr)))"
proof -
  from reachable_log [OF assms] obtain s0 where r: "reachable pr s0"
    and l: "l = get_model (s_dict s0)" by blast
  have inv: "session_inv pr s0" using r by (rule reachable_session_inv)
  then have "distinct (obj_keys (s_dict s0))"
    by (simp add: session_inv_def obj_keys_distinct)
  then have "length (obj_keys (s_dict s0)) = card (set (obj_keys (s_dict s0)))"
    by (simp add: distinct_card)
  with inv l show ?thesis
    by (simp add: session_inv_def get_model_def obj_values_def obj_keys_def)
qed

end
