(* ===== verification/Spec2Isabelle.thy ===== *)
theory Spec2Isabelle
  imports Session
begin

text \<open>
  \<^bold>\<open>A verification library for sfgardev/selsup.\<close>
  The repository is one React/TypeScript file, src/src/App.tsx: a form editor for a
  product \<open>Model\<close> whose parameters are declared by a list \<open>Param[]\<close>. Its parts
  and how they interact:
  \<^item> the interfaces \<open>Param\<close>, \<open>ParamValue\<close>, \<open>Model\<close>, \<open>Props\<close> (lines 148--165)
    and the entry type of the editor's dictionary (lines 46--53);
  \<^item> \<open>ParamInput\<close> (lines 17--39), a stateless text input that reports
    \<open>(e.target.value, id)\<close> to its \<open>onChange\<close> callback;
  \<^item> \<open>ParamEditor\<close> (lines 41--114): its \<open>useState\<close> initializer seeds a plain
    object keyed by parameter id (one empty slot per declaration, then the initial
    values), \<open>onParamInputChange\<close> rewrites one slot through a functional state
    update, \<open>renderParams\<close> renders one \<open>ParamInput\<close> per declared string
    parameter whose slot holds a string, and the button logs \<open>getModel()\<close>,
    i.e.\ \<open>Object.values\<close> of the dictionary;
  \<^item> \<open>App\<close> (lines 116--145) mounts the editor on two demo parameters.
  The dictionary is a JavaScript object, so its behaviour depends on ECMAScript's
  property semantics: integer keys that are array indices enumerate in ascending
  order before all other keys.

  \<^bold>\<open>Theories.\<close>
  \<^item> \<open>Prelude\<close>: the rule collections \<open>obj_simps\<close> and \<open>slot_simps\<close>, the key
    type, and list and map lemmas shared by the components.
  \<^item> \<open>JsObject\<close>: the ordinary object as two association lists (array-index keys
    sorted, other keys in insertion order), with internal Get \<open>obj_get\<close>, internal Set
    \<open>obj_set\<close>, \<open>obj_values\<close> and the spread \<open>obj_spread\<close> defined as the
    property-by-property copy of CopyDataProperties. Lemmas: get after set,
    well-formedness \<open>obj_wf\<close> preserved, key sets, commutation of sets on
    different existing keys, enumeration order, and that spread of a well-formed
    object is the object itself.
  \<^item> \<open>ParamTypes\<close>, \<open>ParamInput\<close>: the interfaces as records and datatypes
    (\<open>jsval\<close> for the runtime values \<open>T\<close> admits, \<open>None\<close> for \<open>undefined\<close>);
    the control's view and the arguments it passes to \<open>onChange\<close>.
  \<^item> \<open>Reconciler\<close>: \<open>seed_params\<close> and \<open>overlay_values\<close> (the two \<open>for\<close>
    loops), \<open>init_dict\<close>, \<open>get_model\<close>, \<open>on_param_input_change\<close>; the
    specification's editor state (\<open>spec_initialize\<close>, \<open>spec_set_value\<close> with
    \<open>UnknownParameterError\<close>) and the abstraction \<open>abs_dict\<close>. Claims C1--C12:
    the exact key set and slot contents after initialisation, refinement of
    \<open>initialize\<close> and \<open>setValue\<close> under their preconditions, what an edit does
    outside them (an orphan entry, no error), frame, last-write-wins and commutation of
    edits, round trip of \<open>getModel\<close>, and its order for every kind of id: array-index
    ids ascending, then the other ids (negative, or from \<open>2^32 - 1\<close> on) in order of
    first declaration.
  \<^item> \<open>Dispatcher\<close>: \<open>render_param\<close>/\<open>render_params\<close> with the \<open>TypeError\<close> of
    line 85 as an \<open>Inl\<close> value, and the per-control callback \<open>dispatch_change\<close>.
    Claims C13--C16: unvalued parameters are not rendered, when rendering throws,
    what a control shows, and extension by a parameter of another kind.
  \<^item> \<open>Session\<close>: the mounted component as a record of props, dictionary and
    console log; \<open>ui_step\<close> (typing into the \<open>i\<close>-th rendered input, pressing the
    button) and the inductive \<open>reachable\<close> of the states reached from mounting by
    any sequence of events. The invariant \<open>session_inv\<close> (well-formed dictionary,
    key set, ids match keys) is proved by rule induction. Claims C17--C22: key set,
    rendering never throws, unvalued parameters stay empty and hidden for the whole
    session, the effect of an edit, editability of rendered inputs, the shape of
    printed models.
  \<^item> This theory: the demo props of \<open>App\<close>, the spec's example inputs and a
    declaration list with every kind of id, the witnesses of every claim with
    hypotheses, and the claim across components C23: the specification's own example
    scenario is unreachable through the user interface.

  \<^bold>\<open>Findings\<close> (see the claims): a declared parameter with no initial value is never
  rendered, so it can never be edited (C13, C19, C23), against the requirement that
  every parameter be displayed and editable; values for undeclared ids become orphan
  entries instead of being dropped (C2); an update of an unknown id adds an orphan
  instead of failing (C8); \<open>getModel\<close> returns \<open>{ id, name, value }\<close> entries in
  ascending-id order, not \<open>ParamValue\<close>s in declaration order (C11, C12); two
  declarations with the same id share one slot named after the last of them (C2).

  \<^bold>\<open>Bounds and fuel.\<close> Every loop of the code is a \<open>for ... of\<close> or \<open>map\<close> over a
  finite list and is modelled by structural recursion, so no fuel is needed and every
  function is total. The one numeric bound is the array-index range
  \<open>0 \<le> k < 2^32 - 1\<close> (\<open>array_index_bound\<close>), which decides enumeration order.

  \<^bold>\<open>Not modelled.\<close> Styling and layout (Tailwind classes); React's scheduler
  and reconciliation (each event is applied to the latest state, which is what a
  functional \<open>setState\<close> guarantees); the formatting of \<open>console.log\<close> (the log
  holds the logged values); JavaScript numbers are modelled as integers, so
  fractional, \<open>NaN\<close> or unsafe-integer ids are outside the model; the Cyrillic
  demo strings are transliterated to ASCII.
\<close>

section \<open>Concrete data\<close>

text \<open>
  The props \<open>App\<close> passes to \<open>ParamEditor\<close> (src/src/App.tsx, lines 116--145). The
  Cyrillic labels and values are transliterated to ASCII.
\<close>

definition app_params :: "param list" where
  "app_params =
     [\<lparr>param_id = 1, param_name = ''Naznachenie'', param_type = ''string''\<rparr>,
      \<lparr>param_id = 2, param_name = ''Dlina'', param_type = ''string''\<rparr>]"

definition app_model :: model where
  "app_model =
     \<lparr>paramValues = [\<lparr>paramId = 1, pv_value = JStr ''povsednevnoe''\<rparr>,
                     \<lparr>paramId = 2, pv_value = JStr ''maksi''\<rparr>]\<rparr>"

definition app_props :: props where
  "app_props = \<lparr>props_params = app_params, props_model = app_model\<rparr>"

text \<open>The example scenario of spec.md, section 8: parameter 2 has no initial value.\<close>

definition example_model :: model where
  "example_model = \<lparr>paramValues = [\<lparr>paramId = 1, pv_value = JStr ''povsednevnoe''\<rparr>]\<rparr>"

definition example_props :: props where
  "example_props = \<lparr>props_params = app_params, props_model = example_model\<rparr>"

abbreviation app_dict :: dict where
  "app_dict \<equiv> init_dict app_params app_model"

text \<open>A parameter of a kind other than \<open>'string'\<close>, for the extension property.\<close>

definition number_param :: param where
  "number_param = \<lparr>param_id = 3, param_name = ''Dlina, sm'', param_type = ''number''\<rparr>"

text \<open>
  Declared ids of every kind: array indices (3, 5 and the largest one, \<open>2^32 - 2\<close>),
  a negative id declared twice, and the ids \<open>2^32\<close> and \<open>2^32 - 1\<close> past the bound.
\<close>

definition order_params :: "param list" where
  "order_params =
     [\<lparr>param_id = 5, param_name = ''five'', param_type = ''string''\<rparr>,
      \<lparr>param_id = -1, param_name = ''minus one'', param_type = ''string''\<rparr>,
      \<lparr>param_id = 4294967296, param_name = ''beyond'', param_type = ''string''\<rparr>,
      \<lparr>param_id = 3, param_name = ''three'', param_type = ''string''\<rparr>,
      \<lparr>param_id = 4294967295, param_name = ''bound'', param_type = ''string''\<rparr>,
      \<lparr>param_id = 4294967294, param_name = ''last index'', param_type = ''string''\<rparr>,
      \<lparr>param_id = -1, param_name = ''minus one again'', param_type = ''string''\<rparr>]"

definition order_model :: model where
  "order_model = \<lparr>paramValues = [\<lparr>paramId = -1, pv_value = JStr ''m''\<rparr>]\<rparr>"

lemmas app_data = app_params_def app_model_def example_model_def
  number_param_def app_props_def example_props_def order_params_def order_model_def

section \<open>Witnesses of the reconciler's theorems\<close>

theorem init_dict_refines_witness:
  "set (value_ids app_model) \<subseteq> set (param_ids app_params) \<and>
   abs_dict app_dict = spec_initialize app_params app_model"
proof -
  have h: "set (value_ids app_model) \<subseteq> set (param_ids app_params)"
    by (simp add: app_data)
  show ?thesis using h Reconciler.init_dict_refines [OF h] by simp
qed

theorem on_change_frame_witness:
  "obj_wf app_dict \<and> (2::key) \<noteq> 1 \<and>
   obj_get (on_param_input_change app_dict (JStr ''mini'') 1) 2 = obj_get app_dict 2"
  using Reconciler.on_change_frame [of app_dict 2 1 "JStr ''mini''"] by simp

theorem on_change_slot_witness:
  "obj_wf app_dict \<and>
   obj_get app_dict 1 = Some \<lparr>entry_id = Some 1, entry_name = Some ''Naznachenie'',
                              entry_value = Some (JStr ''povsednevnoe'')\<rparr> \<and>
   obj_get (on_param_input_change app_dict (JStr ''mini'') 1) 1 =
     Some \<lparr>entry_id = Some 1, entry_name = Some ''Naznachenie'',
           entry_value = Some (JStr ''mini'')\<rparr>"
proof -
  have h: "obj_get app_dict 1 = Some \<lparr>entry_id = Some 1, entry_name = Some ''Naznachenie'',
                              entry_value = Some (JStr ''povsednevnoe'')\<rparr>"
    by (simp add: obj_get_init_dict empty_slot_def app_data)
  show ?thesis using h Reconciler.on_change_slot [OF init_dict_wf h] by simp
qed

theorem on_change_last_write_wins_witness:
  "obj_wf app_dict \<and>
   on_param_input_change (on_param_input_change app_dict (JStr ''a'') 2) (JStr ''b'') 2 =
   on_param_input_change app_dict (JStr ''b'') 2"
  using Reconciler.on_change_last_write_wins [OF init_dict_wf] by simp

theorem on_change_refines_witness:
  "obj_wf app_dict \<and> 2 \<in> dom (abs_dict app_dict) \<and>
   spec_set_value (abs_dict app_dict) 2 (JStr ''b'') =
     Inr (abs_dict (on_param_input_change app_dict (JStr ''b'') 2))"
proof -
  have h: "2 \<in> dom (abs_dict app_dict)"
    by (simp add: domIff abs_dict_def obj_get_init_dict empty_slot_def app_data)
  show ?thesis using h Reconciler.on_change_refines [OF init_dict_wf h] by simp
qed

theorem on_change_unknown_id_witness:
  "obj_wf app_dict \<and> 5 \<notin> set (obj_keys app_dict) \<and>
   spec_set_value (abs_dict app_dict) 5 (JStr ''z'') = Inl UnknownParameterError"
proof -
  have h: "5 \<notin> set (obj_keys app_dict)"
    by (simp add: init_dict_def app_data)
  show ?thesis using h Reconciler.on_change_unknown_id [OF init_dict_wf h] by simp
qed

theorem on_change_commute_witness:
  "obj_wf app_dict \<and> (1::key) \<noteq> 2 \<and> 1 \<in> set (obj_keys app_dict) \<and> 2 \<in> set (obj_keys app_dict) \<and>
   on_param_input_change (on_param_input_change app_dict (JStr ''a'') 1) (JStr ''b'') 2 =
   on_param_input_change (on_param_input_change app_dict (JStr ''b'') 2) (JStr ''a'') 1"
proof -
  have h1: "1 \<in> set (obj_keys app_dict)" and h2: "2 \<in> set (obj_keys app_dict)"
    by (simp_all add: init_dict_def app_data)
  show ?thesis
    using h1 h2 Reconciler.on_change_commute [OF init_dict_wf _ h1 h2] by simp
qed

theorem get_model_roundtrip_witness:
  "distinct (value_ids app_model) \<and> set (value_ids app_model) \<subseteq> set (param_ids app_params) \<and>
   set (populated (get_model app_dict)) = set (value_pairs app_model)"
proof -
  have h1: "distinct (value_ids app_model)"
    and h2: "set (value_ids app_model) \<subseteq> set (param_ids app_params)"
    by (simp_all add: app_data)
  show ?thesis using h1 h2 Reconciler.get_model_roundtrip [OF h1 h2] by simp
qed


theorem get_model_key_order_witness:
  "set (value_ids order_model) \<subseteq> set (param_ids order_params) \<and>
   map entry_id (get_model (init_dict order_params order_model)) =
     [Some 3, Some 5, Some 4294967294, Some (-1), Some 4294967296, Some 4294967295]"
proof -
  have h: "set (value_ids order_model) \<subseteq> set (param_ids order_params)"
    by (simp add: app_data)
  show ?thesis
    using h Reconciler.get_model_key_order [OF h]
    by (simp add: app_data is_array_index_def array_index_bound_def)
qed

section \<open>Witnesses of the dispatcher's theorems\<close>

theorem render_unvalued_hidden_witness:
  "\<lparr>param_id = 2, param_name = ''Dlina'', param_type = ''string''\<rparr> \<in> set app_params \<and>
   2 \<notin> set (value_ids example_model) \<and>
   render_param (init_dict app_params example_model)
     \<lparr>param_id = 2, param_name = ''Dlina'', param_type = ''string''\<rparr> = Inr None"
proof -
  have h1: "\<lparr>param_id = 2, param_name = ''Dlina'', param_type = ''string''\<rparr> \<in> set app_params"
    and h2: "param_id \<lparr>param_id = 2, param_name = ''Dlina'', param_type = ''string''\<rparr>
               \<notin> set (value_ids example_model)"
    by (simp_all add: app_data)
  show ?thesis using h1 h2 Dispatcher.render_unvalued_hidden [OF h1 h2] by simp
qed

theorem render_params_fails_iff_witness:
  "render_params obj_empty app_params = Inl TypeError \<and>
   (\<exists>p \<in> set app_params. obj_get obj_empty (param_id p) = None)"
proof -
  have h: "\<exists>p \<in> set app_params. obj_get obj_empty (param_id p) = None"
    by (auto simp: app_data)
  show ?thesis using h Dispatcher.render_params_fails_iff [of obj_empty app_params] by simp
qed

theorem render_control_shows_slot_witness:
  "render_param app_dict (hd app_params) =
     Inr (Some \<lparr>ctl_id = 1, ctl_name = ''Naznachenie'', ctl_value = Some ''povsednevnoe''\<rparr>) \<and>
   abs_dict app_dict 1 = Some (Some (JStr ''povsednevnoe''))"
proof -
  have h: "render_param app_dict (hd app_params) =
     Inr (Some \<lparr>ctl_id = 1, ctl_name = ''Naznachenie'', ctl_value = Some ''povsednevnoe''\<rparr>)"
    by (simp add: render_param_def obj_get_init_dict empty_slot_def app_data)
  show ?thesis using h Dispatcher.render_control_shows_slot [OF h] by (simp add: app_data)
qed

theorem render_extension_witness:
  "param_id number_param \<notin> set (param_ids app_params) \<and> param_type number_param \<noteq> ''string'' \<and>
   render_params (init_dict (app_params @ [number_param]) app_model) (app_params @ [number_param]) =
   map_sum id (\<lambda>cs. cs @ [None]) (render_params app_dict app_params)"
proof -
  have h1: "param_id number_param \<notin> set (param_ids app_params)"
    and h2: "param_type number_param \<noteq> ''string''"
    by (simp_all add: app_data)
  show ?thesis using h1 h2 Dispatcher.render_extension [OF h1 h2] by simp
qed

section \<open>Witnesses of the session's theorems\<close>

lemma app_mount_reachable: "reachable app_props (mount app_props)"
  by (rule reachable.mounted)

lemma render_app_dict:
  "render_params app_dict app_params =
     Inr [Some \<lparr>ctl_id = 1, ctl_name = ''Naznachenie'', ctl_value = Some ''povsednevnoe''\<rparr>,
          Some \<lparr>ctl_id = 2, ctl_name = ''Dlina'', ctl_value = Some ''maksi''\<rparr>]"
  by (simp add: render_param_def obj_get_init_dict empty_slot_def app_data)

theorem reachable_keys_witness:
  "reachable app_props (mount app_props) \<and>
   set (obj_keys (s_dict (mount app_props))) = {1, 2}"
  using Session.reachable_keys [OF app_mount_reachable] app_mount_reachable
  by (simp add: app_data)

theorem reachable_render_total_witness:
  "reachable app_props (mount app_props) \<and>
   (\<exists>cs. render_params (s_dict (mount app_props)) (props_params app_props) = Inr cs \<and>
         length cs = length (props_params app_props))"
  using Session.reachable_render_total [OF app_mount_reachable] app_mount_reachable
  by blast

theorem reachable_unvalued_frozen_witness:
  "reachable example_props (mount example_props) \<and>
   \<lparr>param_id = 2, param_name = ''Dlina'', param_type = ''string''\<rparr> \<in> set (props_params example_props) \<and>
   2 \<notin> set (value_ids (props_model example_props)) \<and>
   abs_dict (s_dict (mount example_props)) 2 = Some None"
proof -
  have h1: "\<lparr>param_id = 2, param_name = ''Dlina'', param_type = ''string''\<rparr>
              \<in> set (props_params example_props)"
    and h2: "param_id \<lparr>param_id = 2, param_name = ''Dlina'', param_type = ''string''\<rparr>
              \<notin> set (value_ids (props_model example_props))"
    by (simp_all add: app_data)
  show ?thesis
    using h1 h2 Session.reachable_unvalued_frozen [OF reachable.mounted h1 h2]
    by (simp add: reachable.mounted)
qed

theorem ui_edit_effect_witness:
  "ui_step (mount app_props) (TypeInto 1 ''midi'') =
     Some ((mount app_props)\<lparr>s_dict := on_param_input_change app_dict (JStr ''midi'') 2\<rparr>) \<and>
   s_dict ((mount app_props)\<lparr>s_dict := on_param_input_change app_dict (JStr ''midi'') 2\<rparr>) =
     on_param_input_change app_dict (JStr ''midi'') 2"
proof -
  have h: "ui_step (mount app_props) (TypeInto 1 ''midi'') =
     Some ((mount app_props)\<lparr>s_dict := on_param_input_change app_dict (JStr ''midi'') 2\<rparr>)"
    using render_app_dict
    by (simp add: mount_def dispatch_change_def param_input_change_def app_props_def,
        simp add: app_params_def)
  show ?thesis using h Session.ui_edit_effect [OF h] by simp
qed

theorem reachable_editable_witness:
  "reachable app_props (mount app_props) \<and> 0 < length (props_params app_props) \<and>
   render_param (s_dict (mount app_props)) (props_params app_props ! 0) =
     Inr (Some \<lparr>ctl_id = 1, ctl_name = ''Naznachenie'', ctl_value = Some ''povsednevnoe''\<rparr>) \<and>
   (\<exists>s'. ui_step (mount app_props) (TypeInto 0 ''x'') = Some s' \<and>
         abs_dict (s_dict s') (param_id (props_params app_props ! 0)) = Some (Some (JStr ''x'')))"
proof -
  have h1: "0 < length (props_params app_props)" by (simp add: app_data)
  have h2: "render_param (s_dict (mount app_props)) (props_params app_props ! 0) =
     Inr (Some \<lparr>ctl_id = 1, ctl_name = ''Naznachenie'', ctl_value = Some ''povsednevnoe''\<rparr>)"
    by (simp add: mount_def render_param_def obj_get_init_dict empty_slot_def app_data)
  show ?thesis
    using h1 h2 app_mount_reachable
      Session.reachable_editable [OF app_mount_reachable h1 h2, of "''x''"]
    by blast
qed

lemma app_click_reachable:
  "reachable app_props ((mount app_props)\<lparr>s_log := [get_model app_dict]\<rparr>)"
proof -
  have "ui_step (mount app_props) ClickGetModel =
          Some ((mount app_props)\<lparr>s_log := [get_model app_dict]\<rparr>)"
    using render_app_dict by (simp add: mount_def app_props_def)
  then show ?thesis by (rule reachable.step [OF reachable.mounted])
qed

theorem reachable_log_shape_witness:
  "reachable app_props ((mount app_props)\<lparr>s_log := [get_model app_dict]\<rparr>) \<and>
   get_model app_dict \<in> set (s_log ((mount app_props)\<lparr>s_log := [get_model app_dict]\<rparr>)) \<and>
   length (get_model app_dict) = 2"
proof -
  have "length (get_model app_dict) = 2"
    using Session.reachable_log_shape [OF app_click_reachable, of "get_model app_dict"]
    by (simp add: app_data)
  with app_click_reachable show ?thesis by simp
qed

section \<open>Properties across components\<close>

text \<open>
  C23. The example scenario of spec.md, section 8, cannot happen through the user
  interface: with parameter 2 declared and no initial value for it, every model the
  "get model" button ever prints carries parameter 2's entry with \<open>value\<close>
  \<open>undefined\<close>, because its input is never rendered.
\<close>

theorem spec_example_unreachable:
  assumes "reachable example_props s" and "l \<in> set (s_log s)"
  shows "\<lparr>entry_id = Some 2, entry_name = Some ''Dlina'', entry_value = None\<rparr> \<in> set l"
proof -
  from reachable_log [OF assms] obtain s0 where r: "reachable example_props s0"
    and l: "l = get_model (s_dict s0)" by blast
  have init: "obj_get (init_dict (props_params example_props) (props_model example_props)) 2 =
      Some \<lparr>entry_id = Some 2, entry_name = Some ''Dlina'', entry_value = None\<rparr>"
    by (simp add: obj_get_init_dict empty_slot_def app_data)
  have "obj_get (s_dict s0) 2 =
      Some \<lparr>entry_id = Some 2, entry_name = Some ''Dlina'', entry_value = None\<rparr>"
    using reachable_frozen_slot [OF r init] by simp
  moreover have "obj_wf (s_dict s0)"
    using reachable_session_inv [OF r] by (simp add: session_inv_def)
  ultimately have "(2, \<lparr>entry_id = Some 2, entry_name = Some ''Dlina'', entry_value = None\<rparr>)
      \<in> set (obj_entries (s_dict s0))"
    by (simp add: obj_entries_get)
  with l show ?thesis
    by (force simp: get_model_def obj_values_def)
qed

section \<open>Witness of the cross-component theorem\<close>

lemma example_click_reachable:
  "reachable example_props
     ((mount example_props)\<lparr>s_log := [get_model (init_dict app_params example_model)]\<rparr>)"
proof -
  have "render_params (init_dict app_params example_model) app_params =
     Inr [Some \<lparr>ctl_id = 1, ctl_name = ''Naznachenie'', ctl_value = Some ''povsednevnoe''\<rparr>, None]"
    by (simp add: render_param_def obj_get_init_dict empty_slot_def app_data)
  then have "ui_step (mount example_props) ClickGetModel =
      Some ((mount example_props)\<lparr>s_log := [get_model (init_dict app_params example_model)]\<rparr>)"
    by (simp add: mount_def example_props_def)
  then show ?thesis by (rule reachable.step [OF reachable.mounted])
qed

theorem spec_example_unreachable_witness:
  "reachable example_props
     ((mount example_props)\<lparr>s_log := [get_model (init_dict app_params example_model)]\<rparr>) \<and>
   get_model (init_dict app_params example_model) \<in>
     set (s_log ((mount example_props)\<lparr>s_log := [get_model (init_dict app_params example_model)]\<rparr>)) \<and>
   \<lparr>entry_id = Some 2, entry_name = Some ''Dlina'', entry_value = None\<rparr>
     \<in> set (get_model (init_dict app_params example_model))"
  using spec_example_unreachable [OF example_click_reachable] example_click_reachable by simp

end
